theory Spec2Isabelle
  imports Main "HOL-Library.Word" "HOL-Library.Multiset"
begin

unbundle bit_operations_syntax

section \<open>The watcher of concurrency/ex7/watch.go\<close>

text \<open>
  The program walks the file trees named on the command line, hashes every regular file and
  compares two successive results. The model keeps the names of the source. Pointers that
  may be nil are options, a panic of the Go runtime is a value, and a Go map is an
  association list whose order is the order in which \<^verbatim>\<open>range\<close> yields the entries.
\<close>

subsection \<open>Data\<close>

type_synonym byte = "8 word"

text \<open>
  A Go \<^verbatim>\<open>error\<close> value. The program only tests it against nil, so an error is kept as
  the message it carries; the nil error is \<open>None\<close> of \<open>error option\<close>. \<open>SkipDir\<close> is the
  one error value that filepath.Walk compares with.
\<close>

datatype error = SkipDir | Error string

text \<open>
  \<^verbatim>\<open>type Hashed struct { Path string; Hash []byte; Err error }\<close>.
  The nil slice and the empty slice are both \<open>[]\<close>: the program only takes the length
  of \<open>Hash\<close> and indexes it.
\<close>

record Hashed =
  Path :: string
  Hash :: "byte list"
  Err :: "error option"

text \<open>What the Go runtime does on a nil dereference and on an index out of range.\<close>

datatype panic = NilDereference | IndexOutOfRange

definition deref :: "'a option \<Rightarrow> panic + 'a" where
  "deref p = (case p of None \<Rightarrow> Inl NilDereference | Some v \<Rightarrow> Inr v)"

definition index :: "'a list \<Rightarrow> nat \<Rightarrow> panic + 'a" where
  "index xs i = (if i < length xs then Inr (xs ! i) else Inl IndexOutOfRange)"

subsection \<open>HashedEqual\<close>

text \<open>
  The loop \<^verbatim>\<open>for i := 0; i < len(before.Hash); i++\<close> of HashedEqual, from index \<open>i\<close> on:
  it returns false at the first index where the two slices differ.
\<close>

function HashedEqual_loop :: "nat \<Rightarrow> byte list \<Rightarrow> byte list \<Rightarrow> panic + bool" where
  "HashedEqual_loop i bh ah =
     (if i < length bh then
        (case index bh i of
           Inl e \<Rightarrow> Inl e
         | Inr x \<Rightarrow>
             (case index ah i of
                Inl e \<Rightarrow> Inl e
              | Inr y \<Rightarrow> if x \<noteq> y then Inr False else HashedEqual_loop (i + 1) bh ah))
      else Inr True)"
  by pat_completeness auto
termination
  by (relation "measure (\<lambda>(i, bh, ah). length bh - i)") auto

declare HashedEqual_loop.simps [simp del]

text \<open>
  \<^verbatim>\<open>func HashedEqual(before, after *Hashed) bool\<close>, branch by branch: the nil test, the
  comparison of the paths, the comparison of the failure states, the lengths, the bytes.
\<close>

definition HashedEqual :: "Hashed option \<Rightarrow> Hashed option \<Rightarrow> panic + bool" where
  "HashedEqual before after =
     (if before = None \<or> after = None then Inr (before = None \<and> after = None)
      else
        (case deref before of
           Inl e \<Rightarrow> Inl e
         | Inr b \<Rightarrow>
             (case deref after of
                Inl e \<Rightarrow> Inl e
              | Inr a \<Rightarrow>
                  if Path b \<noteq> Path a then Inr False
                  else
                    (let be = (Err b \<noteq> None); ae = (Err a \<noteq> None) in
                     if be \<or> ae then Inr (be = ae)
                     else if length (Hash b) \<noteq> length (Hash a) then Inr False
                     else HashedEqual_loop 0 (Hash b) (Hash a)))))"

subsection \<open>CompareFileSets\<close>

text \<open>
  \<^verbatim>\<open>type FileSet map[string]*Hashed\<close>. The list holds the entries in the order in which
  \<^verbatim>\<open>range\<close> yields them, which Go leaves unspecified; a Go map has every key once,
  which is \<open>FileSet_ok\<close>. The lookup \<^verbatim>\<open>m[k]\<close> with its \<^verbatim>\<open>has\<close> flag is \<open>map_of m k\<close>.
\<close>

type_synonym FileSet = "(string \<times> Hashed option) list"

definition FileSet_ok :: "FileSet \<Rightarrow> bool" where
  "FileSet_ok m = distinct (map fst m)"

definition keys :: "FileSet \<Rightarrow> string set" where
  "keys m = fst ` set m"

text \<open>
  The first loop of CompareFileSets, over the entries of \<open>before\<close> that are left, with the
  slices \<open>edited\<close> and \<open>deleted\<close> built so far.
\<close>

fun CompareFileSets_before ::
  "FileSet \<Rightarrow> FileSet \<Rightarrow> string list \<times> string list \<Rightarrow> panic + (string list \<times> string list)" where
  "CompareFileSets_before [] after (edited, deleted) = Inr (edited, deleted)"
| "CompareFileSets_before ((bp, bh) # rest) after (edited, deleted) =
     (case map_of after bp of
        None \<Rightarrow> CompareFileSets_before rest after (edited, deleted @ [bp])
      | Some ah \<Rightarrow>
          (case HashedEqual bh ah of
             Inl e \<Rightarrow> Inl e
           | Inr eq \<Rightarrow>
               if \<not> eq then CompareFileSets_before rest after (edited @ [bp], deleted)
               else CompareFileSets_before rest after (edited, deleted)))"

text \<open>The second loop, over the keys of \<open>after\<close>.\<close>

fun CompareFileSets_after :: "FileSet \<Rightarrow> FileSet \<Rightarrow> string list \<Rightarrow> string list" where
  "CompareFileSets_after [] before added = added"
| "CompareFileSets_after ((ap, ah) # rest) before added =
     (if map_of before ap = None then CompareFileSets_after rest before (added @ [ap])
      else CompareFileSets_after rest before added)"

text \<open>The result is the triple \<open>(added, edited, deleted)\<close>, in the order of the source.\<close>

definition CompareFileSets ::
  "FileSet \<Rightarrow> FileSet \<Rightarrow> panic + (string list \<times> string list \<times> string list)" where
  "CompareFileSets before after =
     (case CompareFileSets_before before after ([], []) of
        Inl e \<Rightarrow> Inl e
      | Inr (edited, deleted) \<Rightarrow> Inr (CompareFileSets_after after before [], edited, deleted))"

section \<open>The enumerator and the snapshot builder\<close>

subsection \<open>The file system, as the program sees it\<close>

text \<open>
  Modelled from the spec: the constants of Go's package \<^verbatim>\<open>os\<close> that Files uses are not part
  of the repository. \<^verbatim>\<open>FileMode\<close> is a \<^verbatim>\<open>uint32\<close>; the mode bits are
  \<^verbatim>\<open>ModeDir = 1 << 31\<close>, \<^verbatim>\<open>ModeSymlink = 1 << 27\<close>, \<^verbatim>\<open>ModeDevice = 1 << 26\<close>,
  \<^verbatim>\<open>ModeNamedPipe = 1 << 25\<close>, \<^verbatim>\<open>ModeSocket = 1 << 24\<close>, \<^verbatim>\<open>ModeCharDevice = 1 << 21\<close>,
  \<^verbatim>\<open>ModeIrregular = 1 << 19\<close>, and \<^verbatim>\<open>ModeType\<close> is the mask of these seven: the spec's
  "not a directory, not a symlink, not a special device".
\<close>

type_synonym FileMode = "32 word"

definition ModeDir :: FileMode where "ModeDir = push_bit 31 1"
definition ModeSymlink :: FileMode where "ModeSymlink = push_bit 27 1"
definition ModeDevice :: FileMode where "ModeDevice = push_bit 26 1"
definition ModeNamedPipe :: FileMode where "ModeNamedPipe = push_bit 25 1"
definition ModeSocket :: FileMode where "ModeSocket = push_bit 24 1"
definition ModeCharDevice :: FileMode where "ModeCharDevice = push_bit 21 1"
definition ModeIrregular :: FileMode where "ModeIrregular = push_bit 19 1"

definition ModeType :: FileMode where
  "ModeType = ModeDir OR ModeSymlink OR ModeNamedPipe OR ModeSocket OR ModeDevice OR
     ModeCharDevice OR ModeIrregular"

text \<open>\<^verbatim>\<open>os.FileInfo\<close>: the program calls \<^verbatim>\<open>Mode()\<close> only.\<close>

record FileInfo =
  Mode :: FileMode

definition IsDir :: "FileInfo \<Rightarrow> bool" where
  "IsDir info = (Mode info AND ModeDir \<noteq> 0)"

text \<open>
  What a walk finds at a path: the result of \<^verbatim>\<open>Lstat\<close>, and, for a directory, the result
  of reading its names, an error or the entries in lexical order, each with what is found
  there. The last two fields mean nothing for an entry that is not a directory.
\<close>

datatype fsnode =
  Node (lstat: "error + FileInfo") (readdir_err: "error option") (entries: "(string \<times> fsnode) list")

text \<open>
  An open file: the bytes that reading it delivers and then the end of the file
  (\<open>read_err = None\<close>) or the error that stops the reading.
\<close>

record File =
  data :: "byte list"
  read_err :: "error option"

text \<open>
  The environment of one scan: the command line arguments left after \<^verbatim>\<open>flag.Parse()\<close>, what
  a walk finds at a root, \<^verbatim>\<open>filepath.Join\<close>, and the result of \<^verbatim>\<open>os.Open\<close> on a
  path. It is the same for the whole scan.
\<close>

record OS =
  Args :: "string list"
  Root :: "string \<Rightarrow> fsnode"
  Join :: "string \<Rightarrow> string \<Rightarrow> string"
  Open :: "string \<Rightarrow> error + File"

subsection \<open>filepath.Walk\<close>

text \<open>
  The function that Walk calls at every entry, \<^verbatim>\<open>func(path string, info os.FileInfo, err
  error) error\<close>, with the state that the closure changes passed through. A nil
  \<^verbatim>\<open>info\<close> is \<open>None\<close>.
\<close>

type_synonym 's WalkFunc =
  "string \<Rightarrow> FileInfo option \<Rightarrow> error option \<Rightarrow> 's \<Rightarrow> panic + ('s \<times> error option)"

text \<open>
  Modelled from the spec: \<^verbatim>\<open>filepath.Walk\<close> is Go's library, not part of the repository;
  the spec says of it "recursive descent from each root", and the source "Walk will return
  no error, because all WalkFunc always returns nil". The model is the documented one: the
  function is called once for every entry, with the error of \<^verbatim>\<open>Lstat\<close> or of reading the
  directory if there is one; a directory that cannot be read is not entered; an error that
  the function returns stops the walk, except \<^verbatim>\<open>SkipDir\<close>, which skips the directory.
\<close>

fun walk :: "(string \<Rightarrow> string \<Rightarrow> string) \<Rightarrow> string \<Rightarrow> FileInfo \<Rightarrow> fsnode \<Rightarrow> 's WalkFunc \<Rightarrow> 's \<Rightarrow>
    panic + ('s \<times> error option)"
  and walk_names :: "(string \<Rightarrow> string \<Rightarrow> string) \<Rightarrow> string \<Rightarrow> (string \<times> fsnode) list \<Rightarrow>
    's WalkFunc \<Rightarrow> 's \<Rightarrow> panic + ('s \<times> error option)" where
  "walk join path info (Node l rerr names) walkFn s =
     (if \<not> IsDir info then walkFn path (Some info) None s
      else
        (case walkFn path (Some info) rerr s of
           Inl p \<Rightarrow> Inl p
         | Inr (s1, err1) \<Rightarrow>
             if rerr \<noteq> None \<or> err1 \<noteq> None then Inr (s1, err1)
             else walk_names join path names walkFn s1))"
| "walk_names join path [] walkFn s = Inr (s, None)"
| "walk_names join path ((name, child) # rest) walkFn s =
     (case lstat child of
        Inl err \<Rightarrow>
          (case walkFn (join path name) None (Some err) s of
             Inl p \<Rightarrow> Inl p
           | Inr (s1, err1) \<Rightarrow>
               if err1 \<noteq> None \<and> err1 \<noteq> Some SkipDir then Inr (s1, err1)
               else walk_names join path rest walkFn s1)
      | Inr fileInfo \<Rightarrow>
          (case walk join (join path name) fileInfo child walkFn s of
             Inl p \<Rightarrow> Inl p
           | Inr (s1, err1) \<Rightarrow>
               if err1 \<noteq> None \<and> (\<not> IsDir fileInfo \<or> err1 \<noteq> Some SkipDir) then Inr (s1, err1)
               else walk_names join path rest walkFn s1))"

definition Walk :: "OS \<Rightarrow> string \<Rightarrow> 's WalkFunc \<Rightarrow> 's \<Rightarrow> panic + ('s \<times> error option)" where
  "Walk os root walkFn s =
     (case (case lstat (Root os root) of
              Inl err \<Rightarrow> walkFn root None (Some err) s
            | Inr info \<Rightarrow> walk (Join os) root info (Root os root) walkFn s) of
        Inl p \<Rightarrow> Inl p
      | Inr (s1, err) \<Rightarrow> if err = Some SkipDir then Inr (s1, None) else Inr (s1, err))"

subsection \<open>Files\<close>

text \<open>
  What the program writes to the standard output, as the calls of \<^verbatim>\<open>fmt.Printf\<close> with the
  format and the arguments.
\<close>

datatype printed = Printf string "string list"

definition unable_to_access :: "string \<Rightarrow> printed" where
  "unable_to_access path = Printf (''ERROR: unable to access %q'' @ [CHR 0x0A]) [path]"

text \<open>
  The function literal that Files passes to Walk. It changes the slice \<open>files\<close> of Files
  and the standard output, and returns nil on each of its three paths. \<^verbatim>\<open>info.Mode()\<close>
  on a nil \<open>info\<close> is a nil dereference.
\<close>

definition Files_walkFn :: "(string list \<times> printed list) WalkFunc" where
  "Files_walkFn path info err s =
     (case s of (files, stdout) \<Rightarrow>
        if err \<noteq> None then Inr ((files, stdout @ [unable_to_access path]), None)
        else
          (case deref info of
             Inl p \<Rightarrow> Inl p
           | Inr i \<Rightarrow>
               if Mode i AND ModeType \<noteq> 0 then Inr ((files, stdout), None)
               else Inr ((files @ [path], stdout), None)))"

text \<open>The loop of Files over \<^verbatim>\<open>flag.Args()\<close>; what Walk returns is dropped, as in the source.\<close>

fun Files_loop ::
  "OS \<Rightarrow> string list \<Rightarrow> string list \<times> printed list \<Rightarrow> panic + (string list \<times> printed list)" where
  "Files_loop os [] s = Inr s"
| "Files_loop os (path # rest) s =
     (case Walk os path Files_walkFn s of
        Inl p \<Rightarrow> Inl p
      | Inr (s1, err) \<Rightarrow> Files_loop os rest s1)"

text \<open>Files returns the slice and leaves the standard output as the second component.\<close>

definition Files :: "OS \<Rightarrow> printed list \<Rightarrow> panic + (string list \<times> printed list)" where
  "Files os stdout = Files_loop os (Args os) ([], stdout)"

subsection \<open>SHA-1\<close>

text \<open>
  Modelled from the spec: \<^verbatim>\<open>crypto/sha1\<close> is Go's library, not part of the repository. The
  spec names the algorithm: a fixed hash with 20 bytes of output, SHA-1. This is SHA-1 as
  FIPS 180 defines it: the message is padded to a multiple of 64 bytes with the byte 0x80,
  zeros and its length in bits, and every block of 64 bytes updates five words of 32 bits
  in 80 rounds.
\<close>

type_synonym uint32 = "32 word"

definition RotateLeft32 :: "uint32 \<Rightarrow> nat \<Rightarrow> uint32" where
  "RotateLeft32 x k = push_bit k x OR drop_bit (32 - k) x"

fun be_words :: "byte list \<Rightarrow> uint32 list" where
  "be_words (b0 # b1 # b2 # b3 # rest) =
     (push_bit 24 (ucast b0) OR push_bit 16 (ucast b1) OR push_bit 8 (ucast b2) OR ucast b3) #
     be_words rest"
| "be_words _ = []"

definition schedule_next :: "uint32 list \<Rightarrow> uint32" where
  "schedule_next w =
     RotateLeft32 (w ! (length w - 3) XOR w ! (length w - 8) XOR w ! (length w - 14) XOR
       w ! (length w - 16)) 1"

fun schedule :: "nat \<Rightarrow> uint32 list \<Rightarrow> uint32 list" where
  "schedule 0 w = w"
| "schedule (Suc n) w = schedule n (w @ [schedule_next w])"

definition round_f :: "nat \<Rightarrow> uint32 \<Rightarrow> uint32 \<Rightarrow> uint32 \<Rightarrow> uint32" where
  "round_f i b c d =
     (if i < 20 then (b AND c) OR (NOT b AND d)
      else if i < 40 then b XOR c XOR d
      else if i < 60 then ((b OR c) AND d) OR (b AND c)
      else b XOR c XOR d)"

definition round_k :: "nat \<Rightarrow> uint32" where
  "round_k i =
     (if i < 20 then 0x5A827999 else if i < 40 then 0x6ED9EBA1
      else if i < 60 then 0x8F1BBCDC else 0xCA62C1D6)"

type_synonym regs = "uint32 \<times> uint32 \<times> uint32 \<times> uint32 \<times> uint32"

fun rounds :: "nat \<Rightarrow> uint32 list \<Rightarrow> regs \<Rightarrow> regs" where
  "rounds i [] r = r"
| "rounds i (wi # ws) (a, b, c, d, e) =
     rounds (i + 1) ws
       (RotateLeft32 a 5 + round_f i b c d + e + wi + round_k i, a, RotateLeft32 b 30, c, d)"

definition block :: "regs \<Rightarrow> byte list \<Rightarrow> regs" where
  "block h p =
     (case h of (h0, h1, h2, h3, h4) \<Rightarrow>
        (case rounds 0 (schedule 64 (be_words p)) h of
           (a, b, c, d, e) \<Rightarrow> (h0 + a, h1 + b, h2 + c, h3 + d, h4 + e)))"

fun blocks :: "regs \<Rightarrow> byte list \<Rightarrow> regs" where
  "blocks h p = (if length p < 64 then h else blocks (block h (take 64 p)) (drop 64 p))"

declare blocks.simps [simp del]

definition be_bytes8 :: "nat \<Rightarrow> byte list" where
  "be_bytes8 v =
     [of_nat (v div 2 ^ 56), of_nat (v div 2 ^ 48), of_nat (v div 2 ^ 40), of_nat (v div 2 ^ 32),
      of_nat (v div 2 ^ 24), of_nat (v div 2 ^ 16), of_nat (v div 2 ^ 8), of_nat v]"

definition padding :: "nat \<Rightarrow> byte list" where
  "padding len = 0x80 # replicate ((119 - len mod 64) mod 64) 0 @ be_bytes8 (8 * len)"

definition word_bytes :: "uint32 \<Rightarrow> byte list" where
  "word_bytes w = [ucast (drop_bit 24 w), ucast (drop_bit 16 w), ucast (drop_bit 8 w), ucast w]"

definition init :: regs where
  "init = (0x67452301, 0xEFCDAB89, 0x98BADCFE, 0x10325476, 0xC3D2E1F0)"

definition sha1 :: "byte list \<Rightarrow> byte list" where
  "sha1 msg =
     (case blocks init (msg @ padding (length msg)) of
        (h0, h1, h2, h3, h4) \<Rightarrow>
          word_bytes h0 @ word_bytes h1 @ word_bytes h2 @ word_bytes h3 @ word_bytes h4)"

text \<open>
  The \<^verbatim>\<open>hash.Hash\<close> that \<^verbatim>\<open>sha1.New()\<close> returns, as the bytes written to it so far:
  \<^verbatim>\<open>Write\<close> adds bytes, \<^verbatim>\<open>Sum(b)\<close> appends the checksum of these bytes to \<open>b\<close>.
\<close>

type_synonym digest = "byte list"

definition sha1_New :: digest where
  "sha1_New = []"

definition sha1_Write :: "digest \<Rightarrow> byte list \<Rightarrow> digest" where
  "sha1_Write h p = h @ p"

definition sha1_Sum :: "digest \<Rightarrow> byte list \<Rightarrow> byte list" where
  "sha1_Sum h b = b @ sha1 h"

subsection \<open>Hash\<close>

text \<open>
  \<^verbatim>\<open>io.Copy(h, f)\<close> writes to \<open>h\<close> what it reads from \<open>f\<close>, and returns the error of the
  reading, nil at the end of the file.
\<close>

definition io_Copy :: "digest \<Rightarrow> File \<Rightarrow> digest \<times> error option" where
  "io_Copy h f = (sha1_Write h (data f), read_err f)"

text \<open>
  \<^verbatim>\<open>func Hash(path string) *Hashed\<close>; the name \<open>Hash\<close> is the field of \<open>Hashed\<close>. The
  result is never nil. A field that the composite literal leaves out has its zero value:
  the nil slice, the nil error.
\<close>

definition Hash_func :: "OS \<Rightarrow> string \<Rightarrow> Hashed" where
  "Hash_func os path =
     (case Open os path of
        Inl err \<Rightarrow> \<lparr>Path = path, Hash = [], Err = Some err\<rparr>
      | Inr f \<Rightarrow>
          (case io_Copy sha1_New f of
             (h, Some err) \<Rightarrow> \<lparr>Path = path, Hash = [], Err = Some err\<rparr>
           | (h, None) \<Rightarrow> \<lparr>Path = path, Hash = sha1_Sum h [], Err = None\<rparr>))"

subsection \<open>HashAll\<close>

text \<open>The assignment \<^verbatim>\<open>results[p] = h\<close> on a map: the value of an old key is replaced.\<close>

fun store :: "string \<Rightarrow> Hashed option \<Rightarrow> FileSet \<Rightarrow> FileSet" where
  "store p h [] = [(p, h)]"
| "store p h ((k, v) # m) = (if k = p then (p, h) # m else (k, v) # store p h m)"

text \<open>
  HashAll starts one goroutine for every path of Files and waits for all of them. Each
  goroutine computes \<^verbatim>\<open>Hash(p)\<close> and stores it under \<open>p\<close> while it holds the mutex, so
  the stores happen one at a time, in an order that the scheduler chooses: \<open>sched\<close> gives,
  for the list of the paths, the order of their stores, and \<open>sched_ok\<close> says that it is a
  permutation. The semaphore of the second variant of the file bounds how many goroutines
  run at a time and changes nothing else.
\<close>

definition sched_ok :: "(string list \<Rightarrow> string list) \<Rightarrow> bool" where
  "sched_ok sched = (\<forall>paths. mset (sched paths) = mset paths)"

fun HashAll_stores :: "OS \<Rightarrow> string list \<Rightarrow> FileSet \<Rightarrow> FileSet" where
  "HashAll_stores os [] results = results"
| "HashAll_stores os (p # rest) results =
     HashAll_stores os rest (store p (Some (Hash_func os p)) results)"

definition HashAll ::
  "OS \<Rightarrow> (string list \<Rightarrow> string list) \<Rightarrow> printed list \<Rightarrow> panic + (FileSet \<times> printed list)" where
  "HashAll os sched stdout =
     (case Files os stdout of
        Inl p \<Rightarrow> Inl p
      | Inr (files, stdout1) \<Rightarrow> Inr (HashAll_stores os (sched files) [], stdout1))"

section \<open>What the properties are stated with\<close>

subsection \<open>Equality of fingerprints\<close>

text \<open>
  The rule of the specification for two fingerprints: they are equal iff both are not failed
  and their digests are the same bytes, or both are failed, whatever the two errors are.
\<close>

definition spec_fingerprint_equal :: "Hashed \<Rightarrow> Hashed \<Rightarrow> bool" where
  "spec_fingerprint_equal b a =
     ((Err b = None \<and> Err a = None \<and> Hash b = Hash a) \<or> (Err b \<noteq> None \<and> Err a \<noteq> None))"

text \<open>
  The equality that HashedEqual decides on the pointers stored in a FileSet: two nil pointers
  are equal, a nil pointer and a fingerprint are not, and two fingerprints are equal iff
  their \<open>Path\<close> fields are the same and they are equal by the rule above.
\<close>

definition fingerprint_eq :: "Hashed option \<Rightarrow> Hashed option \<Rightarrow> bool" where
  "fingerprint_eq before after =
     (case (before, after) of
        (None, None) \<Rightarrow> True
      | (Some b, Some a) \<Rightarrow> Path b = Path a \<and> spec_fingerprint_equal b a
      | _ \<Rightarrow> False)"

text \<open>
  A snapshot as HashAll builds it: every key once, and under every key a fingerprint, never
  nil, whose \<open>Path\<close> is the key (\<^verbatim>\<open>results[p] = Hash(p)\<close>, and Hash sets
  \<^verbatim>\<open>Path: path\<close>). These are the only maps that \<^verbatim>\<open>main\<close> passes to CompareFileSets.
\<close>

definition snapshot_wf :: "FileSet \<Rightarrow> bool" where
  "snapshot_wf m =
     (FileSet_ok m \<and>
      list_all (\<lambda>(p, h). case h of None \<Rightarrow> False | Some f \<Rightarrow> Path f = p) m)"

text \<open>The three slices of CompareFileSets, each as a filter of the map it is built from.\<close>

definition added_paths :: "FileSet \<Rightarrow> FileSet \<Rightarrow> string list" where
  "added_paths before after = map fst (filter (\<lambda>(ap, ah). map_of before ap = None) after)"

definition edited_paths :: "FileSet \<Rightarrow> FileSet \<Rightarrow> string list" where
  "edited_paths before after =
     map fst (filter (\<lambda>(bp, bh). \<exists>ah. map_of after bp = Some ah \<and> \<not> fingerprint_eq bh ah) before)"

definition deleted_paths :: "FileSet \<Rightarrow> FileSet \<Rightarrow> string list" where
  "deleted_paths before after = map fst (filter (\<lambda>(bp, bh). map_of after bp = None) before)"

subsection \<open>The entries of a walk\<close>

text \<open>
  The entries below a path, in the order of the descent, each with what the walk gets for
  it: the error of \<^verbatim>\<open>Lstat\<close> or of reading the directory, or else the \<^verbatim>\<open>FileInfo\<close>.
  Nothing below an entry with an error is listed.
\<close>

type_synonym visit = "string \<times> (error + FileInfo)"

fun traversal :: "(string \<Rightarrow> string \<Rightarrow> string) \<Rightarrow> string \<Rightarrow> fsnode \<Rightarrow> visit list"
  and traversal_names ::
    "(string \<Rightarrow> string \<Rightarrow> string) \<Rightarrow> string \<Rightarrow> (string \<times> fsnode) list \<Rightarrow> visit list" where
  "traversal join path (Node l rerr names) =
     (case l of
        Inl err \<Rightarrow> [(path, Inl err)]
      | Inr info \<Rightarrow>
          if \<not> IsDir info then [(path, Inr info)]
          else
            (case rerr of
               Some err \<Rightarrow> [(path, Inl err)]
             | None \<Rightarrow> (path, Inr info) # traversal_names join path names))"
| "traversal_names join path [] = []"
| "traversal_names join path ((name, child) # rest) =
     traversal join (join path name) child @ traversal_names join path rest"

text \<open>All the entries of one scan: those below each root, root after root.\<close>

definition visited :: "OS \<Rightarrow> visit list" where
  "visited os = concat (map (\<lambda>root. traversal (Join os) root (Root os root)) (Args os))"

text \<open>
  A regular file, in the words of the specification: an entry that can be accessed and is
  not a directory, not a symlink and not a special device (a device, a character device, a
  named pipe, a socket, or a file of a kind that the system does not know).
\<close>

definition regular_file :: "visit \<Rightarrow> bool" where
  "regular_file v =
     (case snd v of
        Inl err \<Rightarrow> False
      | Inr info \<Rightarrow>
          Mode info AND ModeDir = 0 \<and> Mode info AND ModeSymlink = 0 \<and>
          Mode info AND ModeDevice = 0 \<and> Mode info AND ModeCharDevice = 0 \<and>
          Mode info AND ModeNamedPipe = 0 \<and> Mode info AND ModeSocket = 0 \<and>
          Mode info AND ModeIrregular = 0)"

definition inaccessible :: "visit \<Rightarrow> bool" where
  "inaccessible v = (case snd v of Inl err \<Rightarrow> True | Inr info \<Rightarrow> False)"

subsection \<open>A file that cannot be hashed\<close>

text \<open>
  The file at \<open>path\<close> cannot be opened, or cannot be read to its end, and \<open>err\<close> is the
  error of the step that fails.
\<close>

definition unreadable :: "OS \<Rightarrow> string \<Rightarrow> error \<Rightarrow> bool" where
  "unreadable os path err =
     (case Open os path of Inl e \<Rightarrow> e = err | Inr f \<Rightarrow> read_err f = Some err)"

subsection \<open>A scenario\<close>

text \<open>
  The tree of the specification's scenario for the enumeration: a root with three regular
  files, an entry that cannot be accessed and a subdirectory with one regular file. The
  first file is empty, the second holds the bytes of "abc", the third cannot be opened, and
  the reading of the fourth fails after two bytes.
\<close>

definition scenario_file :: fsnode where
  "scenario_file = Node (Inr \<lparr>Mode = 0x1A4\<rparr>) None []"

definition scenario_dir :: "(string \<times> fsnode) list \<Rightarrow> fsnode" where
  "scenario_dir names = Node (Inr \<lparr>Mode = ModeDir OR 0x1ED\<rparr>) None names"

definition scenario_root :: fsnode where
  "scenario_root =
     scenario_dir
       [(''a'', scenario_file), (''b'', scenario_file), (''c'', scenario_file),
        (''locked'', Node (Inl (Error ''permission denied'')) None []),
        (''sub'', scenario_dir [(''d'', scenario_file)])]"

definition scenario :: OS where
  "scenario =
     \<lparr>Args = [''root''],
      Root = (\<lambda>p. if p = ''root'' then scenario_root
                  else Node (Inl (Error ''no such file or directory'')) None []),
      Join = (\<lambda>dir name. dir @ ''/'' @ name),
      Open = (\<lambda>p. if p = ''root/a'' then Inr \<lparr>data = [], read_err = None\<rparr>
                  else if p = ''root/b'' then Inr \<lparr>data = [0x61, 0x62, 0x63], read_err = None\<rparr>
                  else if p = ''root/sub/d''
                    then Inr \<lparr>data = [1, 2], read_err = Some (Error ''input/output error'')\<rparr>
                  else Inl (Error ''permission denied''))\<rparr>"

text \<open>
  Two successive snapshots: \<open>f1\<close> has a new digest, \<open>f2\<close> is new, \<open>f3\<close> fails in both with
  two different errors, \<open>f4\<close> was hashed and fails now, \<open>f5\<close> is gone, \<open>f6\<close> is as it was.
\<close>

definition snapshot_1 :: FileSet where
  "snapshot_1 =
     [(''f1'', Some \<lparr>Path = ''f1'', Hash = [1, 2], Err = None\<rparr>),
      (''f3'', Some \<lparr>Path = ''f3'', Hash = [], Err = Some (Error ''permission denied'')\<rparr>),
      (''f4'', Some \<lparr>Path = ''f4'', Hash = [3], Err = None\<rparr>),
      (''f5'', Some \<lparr>Path = ''f5'', Hash = [5], Err = None\<rparr>),
      (''f6'', Some \<lparr>Path = ''f6'', Hash = [6, 6], Err = None\<rparr>)]"

definition snapshot_2 :: FileSet where
  "snapshot_2 =
     [(''f2'', Some \<lparr>Path = ''f2'', Hash = [7], Err = None\<rparr>),
      (''f6'', Some \<lparr>Path = ''f6'', Hash = [6, 6], Err = None\<rparr>),
      (''f1'', Some \<lparr>Path = ''f1'', Hash = [1, 3], Err = None\<rparr>),
      (''f3'', Some \<lparr>Path = ''f3'', Hash = [], Err = Some (Error ''input/output error'')\<rparr>),
      (''f4'', Some \<lparr>Path = ''f4'', Hash = [], Err = Some (Error ''permission denied'')\<rparr>)]"

section \<open>Properties of HashedEqual\<close>

lemma index_in_range: "i < length xs \<Longrightarrow> index xs i = Inr (xs ! i)"
  by (simp add: index_def)

lemma HashedEqual_loop_drop:
  "length bh = length ah \<Longrightarrow> HashedEqual_loop i bh ah = Inr (drop i bh = drop i ah)"
proof (induction i bh ah rule: HashedEqual_loop.induct)
  case (1 i bh ah)
  show ?case
  proof (cases "i < length bh")
    case False
    with "1.prems" show ?thesis
      by (subst HashedEqual_loop.simps) simp
  next
    case True
    then have ia: "i < length ah" using "1.prems" by simp
    have db: "drop i bh = bh ! i # drop (i + 1) bh"
      using True by (simp add: Cons_nth_drop_Suc)
    have da: "drop i ah = ah ! i # drop (i + 1) ah"
      using ia by (simp add: Cons_nth_drop_Suc)
    show ?thesis
    proof (cases "bh ! i = ah ! i")
      case False
      then show ?thesis
        using True ia db da
        by (subst HashedEqual_loop.simps) (simp add: index_in_range)
    next
      case same: True
      have "HashedEqual_loop (i + 1) bh ah = Inr (drop (i + 1) bh = drop (i + 1) ah)"
        using "1.IH" [OF True index_in_range [OF True] index_in_range [OF ia]] same "1.prems"
        by simp
      then show ?thesis
        using True ia db da same
        by (subst HashedEqual_loop.simps) (simp add: index_in_range)
    qed
  qed
qed

lemma HashedEqual_eq: "HashedEqual before after = Inr (fingerprint_eq before after)"
proof (cases before)
  case None
  then show ?thesis
    by (cases after) (simp_all add: HashedEqual_def fingerprint_eq_def)
next
  case (Some b)
  note sb = Some
  show ?thesis
  proof (cases after)
    case None
    with sb show ?thesis by (simp add: HashedEqual_def fingerprint_eq_def)
  next
    case (Some a)
    show ?thesis
    proof (cases "length (Hash b) = length (Hash a)")
      case True
      then show ?thesis
        using sb Some HashedEqual_loop_drop [OF True, of 0]
        by (auto simp: HashedEqual_def fingerprint_eq_def spec_fingerprint_equal_def deref_def
            Let_def)
    next
      case False
      then show ?thesis
        using sb Some
        by (auto simp: HashedEqual_def fingerprint_eq_def spec_fingerprint_equal_def deref_def
            Let_def)
    qed
  qed
qed

lemma fingerprint_eq_refl: "fingerprint_eq h h"
  by (cases h) (auto simp: fingerprint_eq_def spec_fingerprint_equal_def)

lemma fingerprint_eq_sym: "fingerprint_eq b a = fingerprint_eq a b"
  by (cases b; cases a) (auto simp: fingerprint_eq_def spec_fingerprint_equal_def)

text \<open>
  C9. The equality test is total on nil inputs: it returns a boolean, and panics on no
  pair of arguments, nil or not; two nil fingerprints are equal, and a nil fingerprint is
  different from every non-nil one.
\<close>

theorem HashedEqual_total_on_nil:
  "HashedEqual None None = Inr True \<and>
   HashedEqual None (Some a) = Inr False \<and>
   HashedEqual (Some b) None = Inr False \<and>
   (\<exists>r. HashedEqual before after = Inr r)"
  by (simp add: HashedEqual_eq fingerprint_eq_def)

text \<open>
  C10. Two non-nil fingerprints whose \<open>Path\<close> fields differ are never equal, whatever
  their failure states and digests are, equal ones included.
\<close>

theorem HashedEqual_Path_differs:
  "Path b \<noteq> Path a \<Longrightarrow> HashedEqual (Some b) (Some a) = Inr False"
  by (simp add: HashedEqual_eq fingerprint_eq_def)

theorem HashedEqual_Path_differs_witness:
  "Path \<lparr>Path = ''a'', Hash = [1, 2], Err = None\<rparr> \<noteq> Path \<lparr>Path = ''b'', Hash = [1, 2], Err = None\<rparr> \<and>
   Hash \<lparr>Path = ''a'', Hash = [1, 2], Err = None\<rparr> = Hash \<lparr>Path = ''b'', Hash = [1, 2], Err = None\<rparr> \<and>
   Err \<lparr>Path = ''a'', Hash = [1, 2], Err = None\<rparr> = Err \<lparr>Path = ''b'', Hash = [1, 2], Err = None\<rparr> \<and>
   HashedEqual (Some \<lparr>Path = ''a'', Hash = [1, 2], Err = None\<rparr>)
     (Some \<lparr>Path = ''b'', Hash = [1, 2], Err = None\<rparr>) = Inr False"
  using HashedEqual_Path_differs
    [of "\<lparr>Path = ''a'', Hash = [1, 2], Err = None\<rparr>" "\<lparr>Path = ''b'', Hash = [1, 2], Err = None\<rparr>"]
  by simp

section \<open>Properties of CompareFileSets\<close>

lemma CompareFileSets_before_eq:
  "CompareFileSets_before xs after (edited, deleted) =
     Inr (edited @ edited_paths xs after, deleted @ deleted_paths xs after)"
proof (induction xs arbitrary: edited deleted)
  case Nil
  show ?case by (simp add: edited_paths_def deleted_paths_def)
next
  case (Cons x xs)
  obtain bp bh where x: "x = (bp, bh)" by (cases x)
  show ?case
  proof (cases "map_of after bp")
    case None
    then show ?thesis
      using Cons.IH x by (simp add: edited_paths_def deleted_paths_def)
  next
    case (Some ah)
    then show ?thesis
      using Cons.IH x by (simp add: HashedEqual_eq edited_paths_def deleted_paths_def)
  qed
qed

lemma CompareFileSets_after_eq:
  "CompareFileSets_after ys before added = added @ added_paths before ys"
proof (induction ys arbitrary: added)
  case Nil
  show ?case by (simp add: added_paths_def)
next
  case (Cons y ys)
  obtain ap ah where y: "y = (ap, ah)" by (cases y)
  show ?case using Cons.IH y by (simp add: added_paths_def)
qed

lemma CompareFileSets_eq:
  "CompareFileSets before after =
     Inr (added_paths before after, edited_paths before after, deleted_paths before after)"
  by (simp add: CompareFileSets_def CompareFileSets_before_eq CompareFileSets_after_eq)

lemma keys_dom: "keys m = dom (map_of m)"
  by (simp add: keys_def dom_map_of_conv_image_fst)

lemma set_added_paths: "set (added_paths before after) = keys after - keys before"
  by (force simp: added_paths_def keys_def map_of_eq_None_iff)

lemma set_deleted_paths: "set (deleted_paths before after) = keys before - keys after"
  by (force simp: deleted_paths_def keys_def map_of_eq_None_iff)

lemma set_edited_paths:
  "FileSet_ok before \<Longrightarrow>
   set (edited_paths before after) =
     {p. \<exists>bh ah. map_of before p = Some bh \<and> map_of after p = Some ah \<and> \<not> fingerprint_eq bh ah}"
  by (force simp: edited_paths_def FileSet_ok_def)

lemma distinct_added_paths: "FileSet_ok after \<Longrightarrow> distinct (added_paths before after)"
  by (simp add: added_paths_def FileSet_ok_def distinct_map_filter)

lemma distinct_edited_paths: "FileSet_ok before \<Longrightarrow> distinct (edited_paths before after)"
  by (simp add: edited_paths_def FileSet_ok_def distinct_map_filter)

lemma distinct_deleted_paths: "FileSet_ok before \<Longrightarrow> distinct (deleted_paths before after)"
  by (simp add: deleted_paths_def FileSet_ok_def distinct_map_filter)

lemma FileSet_ok_snapshot_1: "FileSet_ok snapshot_1"
  by (simp add: FileSet_ok_def snapshot_1_def)

lemma FileSet_ok_snapshot_2: "FileSet_ok snapshot_2"
  by (simp add: FileSet_ok_def snapshot_2_def)

lemma snapshot_wf_snapshot_1: "snapshot_wf snapshot_1"
  by (simp add: snapshot_wf_def FileSet_ok_def snapshot_1_def)

lemma snapshot_wf_snapshot_2: "snapshot_wf snapshot_2"
  by (simp add: snapshot_wf_def FileSet_ok_def snapshot_2_def)

lemma snapshot_wf_FileSet_ok: "snapshot_wf m \<Longrightarrow> FileSet_ok m"
  by (simp add: snapshot_wf_def)

lemma snapshot_wf_map_of:
  assumes "snapshot_wf m" and "map_of m p = Some h"
  shows "\<exists>f. h = Some f \<and> Path f = p"
proof -
  have "(p, h) \<in> set m"
    using assms(2) by (rule map_of_SomeD)
  moreover have "\<forall>x \<in> set m. case x of (p, h) \<Rightarrow> (case h of None \<Rightarrow> False | Some f \<Rightarrow> Path f = p)"
    using assms(1) by (simp add: snapshot_wf_def list_all_iff)
  ultimately show ?thesis
    by (auto split: option.splits)
qed

lemma snapshot_wf_key:
  assumes "snapshot_wf m" and "p \<in> keys m"
  shows "\<exists>f. map_of m p = Some (Some f) \<and> Path f = p"
proof -
  obtain h where h: "map_of m p = Some h"
    using assms(2) by (auto simp: keys_dom)
  then show ?thesis
    using snapshot_wf_map_of [OF assms(1) h] by auto
qed

text \<open>On the fingerprints of two snapshots, HashedEqual decides the rule of the specification.\<close>

lemma snapshot_wf_fingerprint_eq:
  assumes "snapshot_wf before" and "snapshot_wf after"
    and "map_of before p = Some (Some b)" and "map_of after p = Some (Some a)"
  shows "fingerprint_eq (Some b) (Some a) = spec_fingerprint_equal b a"
proof -
  have "Path b = p"
    using snapshot_wf_map_of [OF assms(1) assms(3)] by simp
  moreover have "Path a = p"
    using snapshot_wf_map_of [OF assms(2) assms(4)] by simp
  ultimately show ?thesis
    by (simp add: fingerprint_eq_def)
qed

lemma snapshot_wf_set_edited_paths:
  assumes "snapshot_wf before" and "snapshot_wf after"
  shows "set (edited_paths before after) =
     {p. \<exists>b a. map_of before p = Some (Some b) \<and> map_of after p = Some (Some a) \<and>
        \<not> spec_fingerprint_equal b a}"
proof -
  have e: "set (edited_paths before after) =
     {p. \<exists>bh ah. map_of before p = Some bh \<and> map_of after p = Some ah \<and>
        \<not> fingerprint_eq bh ah}"
    using snapshot_wf_FileSet_ok [OF assms(1)] by (rule set_edited_paths)
  show ?thesis
    unfolding e
  proof (intro set_eqI iffI; clarify)
    fix p bh ah
    assume b: "map_of before p = Some bh" and a: "map_of after p = Some ah"
      and n: "\<not> fingerprint_eq bh ah"
    obtain fb where fb: "bh = Some fb"
      using snapshot_wf_map_of [OF assms(1) b] by auto
    obtain fa where fa: "ah = Some fa"
      using snapshot_wf_map_of [OF assms(2) a] by auto
    have "\<not> spec_fingerprint_equal fb fa"
      using n snapshot_wf_fingerprint_eq [OF assms, of p fb fa] a b fa fb by simp
    then show "\<exists>b a. map_of before p = Some (Some b) \<and> map_of after p = Some (Some a) \<and>
        \<not> spec_fingerprint_equal b a"
      using a b fa fb by auto
  next
    fix p b a
    assume b: "map_of before p = Some (Some b)" and a: "map_of after p = Some (Some a)"
      and n: "\<not> spec_fingerprint_equal b a"
    have "\<not> fingerprint_eq (Some b) (Some a)"
      using n snapshot_wf_fingerprint_eq [OF assms b a] by simp
    then show "\<exists>bh ah. map_of before p = Some bh \<and> map_of after p = Some ah \<and>
        \<not> fingerprint_eq bh ah"
      using a b by auto
  qed
qed

text \<open>
  C1. For every two snapshots and every path that is a key of both, the path has a
  fingerprint in each, CompareFileSets returns, and the path is in Edited iff the two
  fingerprints are not equal by the rule of the specification: equal iff both are not failed
  with the same digest bytes, or both are failed, whatever the errors. So a path that
  changes from failed to not failed, or back, is in Edited; and the path is never in Added
  and never in Deleted.
\<close>

theorem CompareFileSets_Edited_iff:
  assumes "snapshot_wf before" and "snapshot_wf after"
    and "p \<in> keys before" and "p \<in> keys after"
  shows "\<exists>b a added edited deleted.
     map_of before p = Some (Some b) \<and> map_of after p = Some (Some a) \<and>
     CompareFileSets before after = Inr (added, edited, deleted) \<and>
     (p \<in> set edited \<longleftrightarrow> \<not> spec_fingerprint_equal b a) \<and>
     ((Err b = None) \<noteq> (Err a = None) \<longrightarrow> p \<in> set edited) \<and>
     p \<notin> set added \<and> p \<notin> set deleted"
proof -
  obtain b where b: "map_of before p = Some (Some b)"
    using snapshot_wf_key [OF assms(1) assms(3)] by auto
  obtain a where a: "map_of after p = Some (Some a)"
    using snapshot_wf_key [OF assms(2) assms(4)] by auto
  have e: "p \<in> set (edited_paths before after) \<longleftrightarrow> \<not> spec_fingerprint_equal b a"
    by (simp add: snapshot_wf_set_edited_paths [OF assms(1) assms(2)] a b)
  have t: "(Err b = None) \<noteq> (Err a = None) \<longrightarrow> \<not> spec_fingerprint_equal b a"
    by (auto simp: spec_fingerprint_equal_def)
  have ad: "p \<notin> set (added_paths before after)"
    using assms(3) by (simp add: set_added_paths)
  have d: "p \<notin> set (deleted_paths before after)"
    using assms(4) by (simp add: set_deleted_paths)
  have c: "map_of before p = Some (Some b) \<and> map_of after p = Some (Some a) \<and>
     CompareFileSets before after =
       Inr (added_paths before after, edited_paths before after, deleted_paths before after) \<and>
     (p \<in> set (edited_paths before after) \<longleftrightarrow> \<not> spec_fingerprint_equal b a) \<and>
     ((Err b = None) \<noteq> (Err a = None) \<longrightarrow> p \<in> set (edited_paths before after)) \<and>
     p \<notin> set (added_paths before after) \<and> p \<notin> set (deleted_paths before after)"
    using a b e t ad d CompareFileSets_eq [of before after] by (intro conjI) simp_all
  show ?thesis
    by (intro exI) (rule c)
qed

theorem CompareFileSets_Edited_iff_witness:
  "snapshot_wf snapshot_1 \<and> snapshot_wf snapshot_2 \<and>
   ''f4'' \<in> keys snapshot_1 \<and> ''f4'' \<in> keys snapshot_2 \<and>
   (\<exists>b a added edited deleted.
     map_of snapshot_1 ''f4'' = Some (Some b) \<and> map_of snapshot_2 ''f4'' = Some (Some a) \<and>
     CompareFileSets snapshot_1 snapshot_2 = Inr (added, edited, deleted) \<and>
     (''f4'' \<in> set edited \<longleftrightarrow> \<not> spec_fingerprint_equal b a) \<and>
     ((Err b = None) \<noteq> (Err a = None) \<longrightarrow> ''f4'' \<in> set edited) \<and>
     ''f4'' \<notin> set added \<and> ''f4'' \<notin> set deleted)"
proof -
  have 1: "''f4'' \<in> keys snapshot_1"
    by (simp add: keys_def snapshot_1_def)
  have 2: "''f4'' \<in> keys snapshot_2"
    by (simp add: keys_def snapshot_2_def)
  show ?thesis
    by (intro conjI snapshot_wf_snapshot_1 snapshot_wf_snapshot_2 1 2
        CompareFileSets_Edited_iff [OF snapshot_wf_snapshot_1 snapshot_wf_snapshot_2 1 2])
qed

text \<open>
  C2. For every two snapshots CompareFileSets returns; no path is in two of Added, Edited
  and Deleted, or twice in one of them; and the three together are the keys of the two
  snapshots without the keys of both whose two fingerprints are equal by the rule of the
  specification: the same failed state and, when not failed, the same digest bytes.
\<close>

theorem CompareFileSets_partition:
  assumes "snapshot_wf before" and "snapshot_wf after"
  shows "\<exists>added edited deleted.
     CompareFileSets before after = Inr (added, edited, deleted) \<and>
     set added \<inter> set edited = {} \<and> set added \<inter> set deleted = {} \<and>
     set edited \<inter> set deleted = {} \<and>
     distinct added \<and> distinct edited \<and> distinct deleted \<and>
     set added \<union> set edited \<union> set deleted =
       (keys before \<union> keys after) -
       {p. \<exists>b a. map_of before p = Some (Some b) \<and> map_of after p = Some (Some a) \<and>
          spec_fingerprint_equal b a}"
proof -
  let ?a = "added_paths before after" and ?e = "edited_paths before after"
    and ?d = "deleted_paths before after"
  note okb = snapshot_wf_FileSet_ok [OF assms(1)]
  note oka = snapshot_wf_FileSet_ok [OF assms(2)]
  have e: "set ?e = {p. \<exists>b a. map_of before p = Some (Some b) \<and>
      map_of after p = Some (Some a) \<and> \<not> spec_fingerprint_equal b a}"
    using assms by (rule snapshot_wf_set_edited_paths)
  have both: "\<And>p. p \<in> keys before \<Longrightarrow> p \<in> keys after \<Longrightarrow>
      \<exists>b a. map_of before p = Some (Some b) \<and> map_of after p = Some (Some a)"
    using snapshot_wf_key [OF assms(1)] snapshot_wf_key [OF assms(2)] by blast
  have 1: "set ?a \<inter> set ?e = {}"
    unfolding e set_added_paths keys_dom by auto
  have 2: "set ?a \<inter> set ?d = {}"
    unfolding set_added_paths set_deleted_paths by auto
  have 3: "set ?e \<inter> set ?d = {}"
    unfolding e set_deleted_paths keys_dom by auto
  have 4: "set ?a \<union> set ?e \<union> set ?d =
       (keys before \<union> keys after) -
       {p. \<exists>b a. map_of before p = Some (Some b) \<and> map_of after p = Some (Some a) \<and>
          spec_fingerprint_equal b a}"
  proof (intro set_eqI iffI)
    fix p
    assume "p \<in> set ?a \<union> set ?e \<union> set ?d"
    then show "p \<in> (keys before \<union> keys after) -
       {p. \<exists>b a. map_of before p = Some (Some b) \<and> map_of after p = Some (Some a) \<and>
          spec_fingerprint_equal b a}"
      unfolding e set_added_paths set_deleted_paths keys_dom by auto
  next
    fix p
    assume p: "p \<in> (keys before \<union> keys after) -
       {p. \<exists>b a. map_of before p = Some (Some b) \<and> map_of after p = Some (Some a) \<and>
          spec_fingerprint_equal b a}"
    show "p \<in> set ?a \<union> set ?e \<union> set ?d"
    proof (cases "p \<in> keys before \<and> p \<in> keys after")
      case True
      then obtain b a where "map_of before p = Some (Some b)" "map_of after p = Some (Some a)"
        using both by blast
      then show ?thesis
        using p unfolding e by auto
    next
      case False
      then show ?thesis
        using p unfolding set_added_paths set_deleted_paths by auto
    qed
  qed
  show ?thesis
    using 1 2 3 4 okb oka
    by (simp add: CompareFileSets_eq distinct_added_paths distinct_edited_paths
        distinct_deleted_paths)
qed

theorem CompareFileSets_partition_witness:
  "snapshot_wf snapshot_1 \<and> snapshot_wf snapshot_2 \<and>
   (\<exists>added edited deleted.
     CompareFileSets snapshot_1 snapshot_2 = Inr (added, edited, deleted) \<and>
     set added \<inter> set edited = {} \<and> set added \<inter> set deleted = {} \<and>
     set edited \<inter> set deleted = {} \<and>
     distinct added \<and> distinct edited \<and> distinct deleted \<and>
     set added \<union> set edited \<union> set deleted =
       (keys snapshot_1 \<union> keys snapshot_2) -
       {p. \<exists>b a. map_of snapshot_1 p = Some (Some b) \<and> map_of snapshot_2 p = Some (Some a) \<and>
          spec_fingerprint_equal b a})"
  by (rule conjI [OF snapshot_wf_snapshot_1 conjI [OF snapshot_wf_snapshot_2
        CompareFileSets_partition [OF snapshot_wf_snapshot_1 snapshot_wf_snapshot_2]]])

text \<open>
  C4. For all snapshots A and B, both comparisons return; Deleted of (A, B) and Added of
  (B, A) are the same set, Added of (A, B) and Deleted of (B, A) are the same set, and the
  two Edited are the same set.
\<close>

theorem CompareFileSets_symmetry:
  assumes "FileSet_ok A" and "FileSet_ok B"
  shows "\<exists>added edited deleted added' edited' deleted'.
     CompareFileSets A B = Inr (added, edited, deleted) \<and>
     CompareFileSets B A = Inr (added', edited', deleted') \<and>
     set deleted = set added' \<and> set added = set deleted' \<and> set edited = set edited'"
proof -
  have "set (edited_paths A B) = set (edited_paths B A)"
    using assms fingerprint_eq_sym by (auto simp: set_edited_paths)
  then show ?thesis
    by (simp add: CompareFileSets_eq set_added_paths set_deleted_paths)
qed

theorem CompareFileSets_symmetry_witness:
  "FileSet_ok snapshot_1 \<and> FileSet_ok snapshot_2 \<and>
   (\<exists>added edited deleted added' edited' deleted'.
     CompareFileSets snapshot_1 snapshot_2 = Inr (added, edited, deleted) \<and>
     CompareFileSets snapshot_2 snapshot_1 = Inr (added', edited', deleted') \<and>
     set deleted = set added' \<and> set added = set deleted' \<and> set edited = set edited')"
  by (rule conjI [OF FileSet_ok_snapshot_1 conjI [OF FileSet_ok_snapshot_2
        CompareFileSets_symmetry [OF FileSet_ok_snapshot_1 FileSet_ok_snapshot_2]]])

text \<open>
  C5. For every snapshot A, the comparison of A with A returns an empty Added, an empty
  Edited and an empty Deleted.
\<close>

theorem CompareFileSets_same:
  assumes "FileSet_ok A"
  shows "CompareFileSets A A = Inr ([], [], [])"
proof -
  have "set (added_paths A A) = {}"
    by (simp add: set_added_paths)
  moreover have "set (deleted_paths A A) = {}"
    by (simp add: set_deleted_paths)
  moreover have "set (edited_paths A A) = {}"
    using assms by (auto simp: set_edited_paths fingerprint_eq_refl)
  ultimately show ?thesis
    by (simp add: CompareFileSets_eq)
qed

theorem CompareFileSets_same_witness:
  "FileSet_ok snapshot_1 \<and> CompareFileSets snapshot_1 snapshot_1 = Inr ([], [], [])"
  by (rule conjI [OF FileSet_ok_snapshot_1 CompareFileSets_same [OF FileSet_ok_snapshot_1]])

section \<open>Properties of Files\<close>

lemma ModeType_test:
  "(m AND ModeType = 0) =
     (m AND ModeDir = 0 \<and> m AND ModeSymlink = 0 \<and> m AND ModeDevice = 0 \<and>
      m AND ModeCharDevice = 0 \<and> m AND ModeNamedPipe = 0 \<and> m AND ModeSocket = 0 \<and>
      m AND ModeIrregular = 0)"
  by (auto simp: ModeType_def bit.conj_disj_distrib or_eq_0_iff)

lemma IsDir_ModeType: "IsDir info \<Longrightarrow> Mode info AND ModeType \<noteq> 0"
  by (simp add: ModeType_test IsDir_def)

lemma regular_file_simps [simp]:
  "regular_file (p, Inl err) = False"
  "regular_file (p, Inr info) = (Mode info AND ModeType = 0)"
  by (simp_all add: regular_file_def ModeType_test)

lemma inaccessible_simps [simp]:
  "inaccessible (p, Inl err) = True"
  "inaccessible (p, Inr info) = False"
  by (simp_all add: inaccessible_def)

lemma Files_walkFn_err:
  "Files_walkFn path info (Some err) (files, out) =
     Inr ((files, out @ [unable_to_access path]), None)"
  by (simp add: Files_walkFn_def)

lemma Files_walkFn_info:
  "Files_walkFn path (Some info) None (files, out) =
     Inr ((if Mode info AND ModeType = 0 then files @ [path] else files, out), None)"
  by (simp add: Files_walkFn_def deref_def)

text \<open>
  The walk with the function of Files, on a tree: it comes to every entry of the traversal,
  never stops early and never panics.
\<close>

lemma walk_Files:
  "\<forall>info files out. lstat node = Inr info \<longrightarrow>
     walk join path info node Files_walkFn (files, out) =
       Inr ((files @ map fst (filter regular_file (traversal join path node)),
             out @ map (\<lambda>v. unable_to_access (fst v))
               (filter inaccessible (traversal join path node))), None)"
  and walk_names_Files:
  "\<forall>files out.
     walk_names join path names Files_walkFn (files, out) =
       Inr ((files @ map fst (filter regular_file (traversal_names join path names)),
             out @ map (\<lambda>v. unable_to_access (fst v))
               (filter inaccessible (traversal_names join path names))), None)"
proof (induction join path node and join path names rule: traversal_traversal_names.induct)
  case (1 join path l rerr names)
  show ?case
  proof (intro allI impI)
    fix info files out
    assume "lstat (Node l rerr names) = Inr info"
    then have l: "l = Inr info" by simp
    show "walk join path info (Node l rerr names) Files_walkFn (files, out) =
       Inr ((files @ map fst (filter regular_file (traversal join path (Node l rerr names))),
             out @ map (\<lambda>v. unable_to_access (fst v))
               (filter inaccessible (traversal join path (Node l rerr names)))), None)"
    proof (cases "IsDir info")
      case False
      then show ?thesis using l by (simp add: Files_walkFn_info)
    next
      case True
      note dir = True
      show ?thesis
      proof (cases rerr)
        case (Some err)
        then show ?thesis using l dir by (simp add: Files_walkFn_err)
      next
        case None
        have "\<forall>files out.
           walk_names join path names Files_walkFn (files, out) =
             Inr ((files @ map fst (filter regular_file (traversal_names join path names)),
                   out @ map (\<lambda>v. unable_to_access (fst v))
                     (filter inaccessible (traversal_names join path names))), None)"
          using "1.IH" [OF l _ None] dir by simp
        then show ?thesis
          using l dir None IsDir_ModeType [OF dir] by (simp add: Files_walkFn_info)
      qed
    qed
  qed
next
  case (2 join path)
  show ?case by simp
next
  case (3 join path name child rest)
  show ?case
  proof (intro allI)
    fix files out
    show "walk_names join path ((name, child) # rest) Files_walkFn (files, out) =
       Inr ((files @
               map fst (filter regular_file (traversal_names join path ((name, child) # rest))),
             out @ map (\<lambda>v. unable_to_access (fst v))
               (filter inaccessible (traversal_names join path ((name, child) # rest)))), None)"
    proof (cases "lstat child")
      case (Inl err)
      then have t: "traversal join (join path name) child = [(join path name, Inl err)]"
        by (cases child) simp
      show ?thesis using Inl t "3.IH"(2) by (simp add: Files_walkFn_err)
    next
      case (Inr fileInfo)
      then show ?thesis using "3.IH" by simp
    qed
  qed
qed

lemma Walk_Files:
  "Walk os root Files_walkFn (files, out) =
     Inr ((files @ map fst (filter regular_file (traversal (Join os) root (Root os root))),
           out @ map (\<lambda>v. unable_to_access (fst v))
             (filter inaccessible (traversal (Join os) root (Root os root)))), None)"
proof (cases "lstat (Root os root)")
  case (Inl err)
  then have "traversal (Join os) root (Root os root) = [(root, Inl err)]"
    by (cases "Root os root") simp
  then show ?thesis using Inl by (simp add: Walk_def Files_walkFn_err)
next
  case (Inr info)
  then show ?thesis using walk_Files by (simp add: Walk_def)
qed

lemma Files_loop_eq:
  "Files_loop os roots (files, out) =
     Inr (files @ map fst (filter regular_file
            (concat (map (\<lambda>root. traversal (Join os) root (Root os root)) roots))),
          out @ map (\<lambda>v. unable_to_access (fst v)) (filter inaccessible
            (concat (map (\<lambda>root. traversal (Join os) root (Root os root)) roots))))"
  by (induction roots arbitrary: files out) (simp_all add: Walk_Files)

lemma Files_eq:
  "Files os stdout =
     Inr (map fst (filter regular_file (visited os)),
          stdout @ map (\<lambda>v. unable_to_access (fst v)) (filter inaccessible (visited os)))"
  by (simp add: Files_def visited_def Files_loop_eq)

lemma visited_scenario:
  "visited scenario =
     [(''root'', Inr \<lparr>Mode = ModeDir OR 0x1ED\<rparr>),
      (''root/a'', Inr \<lparr>Mode = 0x1A4\<rparr>), (''root/b'', Inr \<lparr>Mode = 0x1A4\<rparr>),
      (''root/c'', Inr \<lparr>Mode = 0x1A4\<rparr>), (''root/locked'', Inl (Error ''permission denied'')),
      (''root/sub'', Inr \<lparr>Mode = ModeDir OR 0x1ED\<rparr>), (''root/sub/d'', Inr \<lparr>Mode = 0x1A4\<rparr>)]"
  by (simp add: visited_def scenario_def scenario_root_def scenario_dir_def scenario_file_def
      IsDir_def ModeDir_def)

text \<open>
  C7. For every list of roots and every file tree, Files returns; its result is the paths
  of the entries of the walk that are regular files (no directory, no symlink, no special
  device), in the order of the walk; and it prints one diagnostic with the path for every
  entry that cannot be accessed, and goes on: the entries after such an entry are in the
  result like the others.
\<close>

theorem Files_regular_files:
  "Files os stdout =
     Inr (map fst (filter regular_file (visited os)),
          stdout @ map (\<lambda>v. unable_to_access (fst v)) (filter inaccessible (visited os)))"
  by (rule Files_eq)

theorem Files_regular_files_witness:
  "Files scenario [] =
     Inr ([''root/a'', ''root/b'', ''root/c'', ''root/sub/d''], [unable_to_access ''root/locked''])"
  using Files_regular_files [of scenario "[]"]
  by (simp add: visited_scenario ModeType_def ModeDir_def ModeSymlink_def ModeDevice_def
      ModeNamedPipe_def ModeSocket_def ModeCharDevice_def ModeIrregular_def)

section \<open>The two test vectors of SHA-1\<close>

text \<open>
  Each vector is one block of 64 bytes. Its checksum is computed in steps: the padding, the
  sixteen words of the block, the eighty words of the schedule, the rounds ten at a time,
  the sum with the initial words.
\<close>

lemma replicate_numeral: "replicate (numeral n) b = b # replicate (pred_numeral n) b"
  unfolding numeral_eq_Suc by simp

lemma schedule_numeral:
  "schedule (numeral k) w = schedule (pred_numeral k) (w @ [schedule_next w])"
  by (simp add: numeral_eq_Suc)

lemma blocks_single: "length p = 64 \<Longrightarrow> blocks h p = block h p"
  by (subst blocks.simps, simp, subst blocks.simps, simp)

lemma rounds_append: "rounds i (xs @ ys) r = rounds (i + length xs) ys (rounds i xs r)"
  by (induction i xs r rule: rounds.induct) simp_all

lemma rounds_step10:
  "rounds i (w0 # w1 # w2 # w3 # w4 # w5 # w6 # w7 # w8 # w9 # w10 # ws) r =
   rounds (i + 10) (w10 # ws) (rounds i [w0, w1, w2, w3, w4, w5, w6, w7, w8, w9] r)"
proof -
  have l: "length [w0, w1, w2, w3, w4, w5, w6, w7, w8, w9] = 10"
    by simp
  show ?thesis
    using rounds_append [of i "[w0, w1, w2, w3, w4, w5, w6, w7, w8, w9]" "w10 # ws" r]
    by (simp only: l append.simps)
qed

lemma sha1_pad_empty: "([] :: byte list) @ padding (length ([] :: byte list)) =
     [0x80, 0x0, 0x0, 0x0, 0x0, 0x0, 0x0, 0x0, 0x0, 0x0, 0x0, 0x0, 0x0, 0x0, 0x0, 0x0, 0x0, 0x0,
     0x0, 0x0, 0x0, 0x0, 0x0, 0x0, 0x0, 0x0, 0x0, 0x0, 0x0, 0x0, 0x0, 0x0, 0x0, 0x0, 0x0, 0x0,
     0x0, 0x0, 0x0, 0x0, 0x0, 0x0, 0x0, 0x0, 0x0, 0x0, 0x0, 0x0, 0x0, 0x0, 0x0, 0x0, 0x0, 0x0,
     0x0, 0x0, 0x0, 0x0, 0x0, 0x0, 0x0, 0x0, 0x0, 0x0]"
  by (simp add: padding_def be_bytes8_def replicate_numeral)

lemma sha1_words_empty: "be_words
     [0x80, 0x0, 0x0, 0x0, 0x0, 0x0, 0x0, 0x0, 0x0, 0x0, 0x0, 0x0, 0x0, 0x0, 0x0, 0x0, 0x0, 0x0,
     0x0, 0x0, 0x0, 0x0, 0x0, 0x0, 0x0, 0x0, 0x0, 0x0, 0x0, 0x0, 0x0, 0x0, 0x0, 0x0, 0x0, 0x0,
     0x0, 0x0, 0x0, 0x0, 0x0, 0x0, 0x0, 0x0, 0x0, 0x0, 0x0, 0x0, 0x0, 0x0, 0x0, 0x0, 0x0, 0x0,
     0x0, 0x0, 0x0, 0x0, 0x0, 0x0, 0x0, 0x0, 0x0, 0x0] =
     [0x80000000, 0x0, 0x0, 0x0, 0x0, 0x0, 0x0, 0x0, 0x0, 0x0, 0x0, 0x0, 0x0, 0x0, 0x0, 0x0]"
  by simp

lemma sha1_schedule_empty: "schedule 64
     [0x80000000, 0x0, 0x0, 0x0, 0x0, 0x0, 0x0, 0x0, 0x0, 0x0, 0x0, 0x0, 0x0, 0x0, 0x0, 0x0] =
     [0x80000000, 0x0, 0x0, 0x0, 0x0, 0x0, 0x0, 0x0, 0x0, 0x0, 0x0, 0x0, 0x0, 0x0, 0x0, 0x0, 0x1,
     0x0, 0x0, 0x2, 0x0, 0x0, 0x4, 0x0, 0x2, 0x8, 0x0, 0x0, 0x10, 0x0, 0xA, 0x20, 0x6, 0x0, 0x40,
     0x8, 0x28, 0x80, 0x8, 0x0, 0x108, 0x0, 0xA0, 0x200, 0x64, 0x0, 0x408, 0x88, 0x29C, 0x800,
     0x80, 0x28, 0x1088, 0x0, 0xA40, 0x2000, 0x668, 0x80, 0x4088, 0x880, 0x28C8, 0x8000, 0x8A8,
     0x80, 0x108E8, 0x0, 0xA000, 0x20080, 0x6400, 0x0, 0x40800, 0x8800, 0x29C10, 0x80000, 0x8080,
     0x2820, 0x1088C0, 0x0, 0xA40C0, 0x200080]"
  by (simp add: schedule_numeral schedule_next_def RotateLeft32_def)

lemma sha1_rounds_empty_0: "rounds 0
     [0x80000000, 0x0, 0x0, 0x0, 0x0, 0x0, 0x0, 0x0, 0x0, 0x0]
     init =
     (0xCBDBFF31, 0x41376611, 0x21C1D200, 0xF0275FC9, 0xB912ADD9)"
  by (simp add: init_def round_f_def round_k_def RotateLeft32_def)

lemma sha1_rounds_empty_10: "rounds 10
     [0x0, 0x0, 0x0, 0x0, 0x0, 0x0, 0x1, 0x0, 0x0, 0x2]
     (0xCBDBFF31, 0x41376611, 0x21C1D200, 0xF0275FC9, 0xB912ADD9) =
     (0xE758E8DA, 0xB3088DD, 0x8A2A5483, 0xC1AFE45C, 0xF63F5951)"
  by (simp add: init_def round_f_def round_k_def RotateLeft32_def)

lemma sha1_rounds_empty_20: "rounds 20
     [0x0, 0x0, 0x4, 0x0, 0x2, 0x8, 0x0, 0x0, 0x10, 0x0]
     (0xE758E8DA, 0xB3088DD, 0x8A2A5483, 0xC1AFE45C, 0xF63F5951) =
     (0xCA4556CB, 0x874B786F, 0x71EC478B, 0x53CBB470, 0xD3CF5B6)"
  by (simp add: init_def round_f_def round_k_def RotateLeft32_def)

lemma sha1_rounds_empty_30: "rounds 30
     [0xA, 0x20, 0x6, 0x0, 0x40, 0x8, 0x28, 0x80, 0x8, 0x0]
     (0xCA4556CB, 0x874B786F, 0x71EC478B, 0x53CBB470, 0xD3CF5B6) =
     (0x9BDBDD71, 0x62273351, 0xEC805E22, 0x413C1D9A, 0x2AEEAE62)"
  by (simp add: init_def round_f_def round_k_def RotateLeft32_def)

lemma sha1_rounds_empty_40: "rounds 40
     [0x108, 0x0, 0xA0, 0x200, 0x64, 0x0, 0x408, 0x88, 0x29C, 0x800]
     (0x9BDBDD71, 0x62273351, 0xEC805E22, 0x413C1D9A, 0x2AEEAE62) =
     (0x6AE826FF, 0xBCA9922, 0xF9B4E7D0, 0x28656EA4, 0xEBF9A56A)"
  by (simp add: init_def round_f_def round_k_def RotateLeft32_def)

lemma sha1_rounds_empty_50: "rounds 50
     [0x80, 0x28, 0x1088, 0x0, 0xA40, 0x2000, 0x668, 0x80, 0x4088, 0x880]
     (0x6AE826FF, 0xBCA9922, 0xF9B4E7D0, 0x28656EA4, 0xEBF9A56A) =
     (0x9B9D2913, 0x982BCBCA, 0xB86BEAC8, 0xC5A3382E, 0xAF9292FA)"
  by (simp add: init_def round_f_def round_k_def RotateLeft32_def)

lemma sha1_rounds_empty_60: "rounds 60
     [0x28C8, 0x8000, 0x8A8, 0x80, 0x108E8, 0x0, 0xA000, 0x20080, 0x6400, 0x0]
     (0x9B9D2913, 0x982BCBCA, 0xB86BEAC8, 0xC5A3382E, 0xAF9292FA) =
     (0x503C7AE0, 0x8BA00627, 0x39E6BEFC, 0xC444D07C, 0xF4DC8972)"
  by (simp add: init_def round_f_def round_k_def RotateLeft32_def)

lemma sha1_rounds_empty_70: "rounds 70
     [0x40800, 0x8800, 0x29C10, 0x80000, 0x8080, 0x2820, 0x1088C0, 0x0, 0xA40C0, 0x200080]
     (0x503C7AE0, 0x8BA00627, 0x39E6BEFC, 0xC444D07C, 0xF4DC8972) =
     (0x72F480ED, 0x6E9D9F84, 0x999AE2F1, 0x852DC41A, 0xEC052519)"
  by (simp add: init_def round_f_def round_k_def RotateLeft32_def)

lemma sha1_rounds_empty: "rounds 0
     [0x80000000, 0x0, 0x0, 0x0, 0x0, 0x0, 0x0, 0x0, 0x0, 0x0, 0x0, 0x0, 0x0, 0x0, 0x0, 0x0, 0x1,
     0x0, 0x0, 0x2, 0x0, 0x0, 0x4, 0x0, 0x2, 0x8, 0x0, 0x0, 0x10, 0x0, 0xA, 0x20, 0x6, 0x0, 0x40,
     0x8, 0x28, 0x80, 0x8, 0x0, 0x108, 0x0, 0xA0, 0x200, 0x64, 0x0, 0x408, 0x88, 0x29C, 0x800,
     0x80, 0x28, 0x1088, 0x0, 0xA40, 0x2000, 0x668, 0x80, 0x4088, 0x880, 0x28C8, 0x8000, 0x8A8,
     0x80, 0x108E8, 0x0, 0xA000, 0x20080, 0x6400, 0x0, 0x40800, 0x8800, 0x29C10, 0x80000, 0x8080,
     0x2820, 0x1088C0, 0x0, 0xA40C0, 0x200080]
     init =
     (0x72F480ED, 0x6E9D9F84, 0x999AE2F1, 0x852DC41A, 0xEC052519)"
  by (simp del: rounds.simps add: rounds_step10 sha1_rounds_empty_0 sha1_rounds_empty_10 sha1_rounds_empty_20 sha1_rounds_empty_30 sha1_rounds_empty_40 sha1_rounds_empty_50 sha1_rounds_empty_60 sha1_rounds_empty_70)

lemma sha1_block_empty: "block init
     [0x80, 0x0, 0x0, 0x0, 0x0, 0x0, 0x0, 0x0, 0x0, 0x0, 0x0, 0x0, 0x0, 0x0, 0x0, 0x0, 0x0, 0x0,
     0x0, 0x0, 0x0, 0x0, 0x0, 0x0, 0x0, 0x0, 0x0, 0x0, 0x0, 0x0, 0x0, 0x0, 0x0, 0x0, 0x0, 0x0,
     0x0, 0x0, 0x0, 0x0, 0x0, 0x0, 0x0, 0x0, 0x0, 0x0, 0x0, 0x0, 0x0, 0x0, 0x0, 0x0, 0x0, 0x0,
     0x0, 0x0, 0x0, 0x0, 0x0, 0x0, 0x0, 0x0, 0x0, 0x0] =
     (0xDA39A3EE, 0x5E6B4B0D, 0x3255BFEF, 0x95601890, 0xAFD80709)"
  unfolding block_def sha1_words_empty sha1_schedule_empty sha1_rounds_empty
  by (simp add: init_def)

lemma sha1_empty: "sha1 [] =
     [0xDA, 0x39, 0xA3, 0xEE, 0x5E, 0x6B, 0x4B, 0xD, 0x32, 0x55, 0xBF, 0xEF, 0x95, 0x60, 0x18,
     0x90, 0xAF, 0xD8, 0x7, 0x9]"
  unfolding sha1_def sha1_pad_empty
  by (simp add: blocks_single sha1_block_empty word_bytes_def)

lemma sha1_pad_abc: "([0x61, 0x62, 0x63] :: byte list) @ padding (length ([0x61, 0x62, 0x63] :: byte list)) =
     [0x61, 0x62, 0x63, 0x80, 0x0, 0x0, 0x0, 0x0, 0x0, 0x0, 0x0, 0x0, 0x0, 0x0, 0x0, 0x0, 0x0,
     0x0, 0x0, 0x0, 0x0, 0x0, 0x0, 0x0, 0x0, 0x0, 0x0, 0x0, 0x0, 0x0, 0x0, 0x0, 0x0, 0x0, 0x0,
     0x0, 0x0, 0x0, 0x0, 0x0, 0x0, 0x0, 0x0, 0x0, 0x0, 0x0, 0x0, 0x0, 0x0, 0x0, 0x0, 0x0, 0x0,
     0x0, 0x0, 0x0, 0x0, 0x0, 0x0, 0x0, 0x0, 0x0, 0x0, 0x18]"
  by (simp add: padding_def be_bytes8_def replicate_numeral)

lemma sha1_words_abc: "be_words
     [0x61, 0x62, 0x63, 0x80, 0x0, 0x0, 0x0, 0x0, 0x0, 0x0, 0x0, 0x0, 0x0, 0x0, 0x0, 0x0, 0x0,
     0x0, 0x0, 0x0, 0x0, 0x0, 0x0, 0x0, 0x0, 0x0, 0x0, 0x0, 0x0, 0x0, 0x0, 0x0, 0x0, 0x0, 0x0,
     0x0, 0x0, 0x0, 0x0, 0x0, 0x0, 0x0, 0x0, 0x0, 0x0, 0x0, 0x0, 0x0, 0x0, 0x0, 0x0, 0x0, 0x0,
     0x0, 0x0, 0x0, 0x0, 0x0, 0x0, 0x0, 0x0, 0x0, 0x0, 0x18] =
     [0x61626380, 0x0, 0x0, 0x0, 0x0, 0x0, 0x0, 0x0, 0x0, 0x0, 0x0, 0x0, 0x0, 0x0, 0x0, 0x18]"
  by simp

lemma sha1_schedule_abc: "schedule 64
     [0x61626380, 0x0, 0x0, 0x0, 0x0, 0x0, 0x0, 0x0, 0x0, 0x0, 0x0, 0x0, 0x0, 0x0, 0x0, 0x18] =
     [0x61626380, 0x0, 0x0, 0x0, 0x0, 0x0, 0x0, 0x0, 0x0, 0x0, 0x0, 0x0, 0x0, 0x0, 0x0, 0x18,
     0xC2C4C700, 0x0, 0x30, 0x85898E01, 0x0, 0x60, 0xB131C03, 0x30, 0x85898EC1, 0x16263806, 0x0,
     0x180, 0x2C4C700C, 0xF0, 0x93AFB507, 0x5898E048, 0x8E9A9202, 0x600, 0xB131C0F0, 0x16263BC6,
     0x4EBED41E, 0x626380A1, 0x16263806, 0x18C0, 0xD2E138C4, 0xF00, 0x3AFB5079, 0x898E04E5,
     0xE2BA3C2B, 0x60C0, 0x53A37CD, 0x74458547, 0xDA9415ED, 0x26380A16, 0x626383A1, 0x4EBF54DE,
     0x3835B44B, 0xF600, 0x1E84C7A3, 0x98E04D98, 0x651D16A0, 0x62658CA1, 0x458544D6, 0x44584CB7,
     0x7BA06619, 0x6380AEA2, 0xAE55269, 0x627B49A1, 0x7CD45C9D, 0xF0000, 0xFB50753A, 0xEC6765E8,
     0xBA3C2BE2, 0x60C000, 0x3A37CD05, 0x458546F4, 0xB8599DD6, 0x380A1A26, 0x1E02203, 0xE7CC3456,
     0xE6E60B69, 0xF60A00, 0x5795EF4F, 0x822E0879]"
  by (simp add: schedule_numeral schedule_next_def RotateLeft32_def)

lemma sha1_rounds_abc_0: "rounds 0
     [0x61626380, 0x0, 0x0, 0x0, 0x0, 0x0, 0x0, 0x0, 0x0, 0x0]
     init =
     (0x8351F929, 0x4B6AE328, 0x27A301F5, 0x664F8C30, 0xFF1F290)"
  by (simp add: init_def round_f_def round_k_def RotateLeft32_def)

lemma sha1_rounds_abc_10: "rounds 10
     [0x0, 0x0, 0x0, 0x0, 0x0, 0x18, 0xC2C4C700, 0x0, 0x30, 0x85898E01]
     (0x8351F929, 0x4B6AE328, 0x27A301F5, 0x664F8C30, 0xFF1F290) =
     (0xFD9E1D7D, 0xDC64901D, 0x20AA99CA, 0xD3A49608, 0xC82F758B)"
  by (simp add: init_def round_f_def round_k_def RotateLeft32_def)

lemma sha1_rounds_abc_20: "rounds 20
     [0x0, 0x60, 0xB131C03, 0x30, 0x85898EC1, 0x16263806, 0x0, 0x180, 0x2C4C700C, 0xF0]
     (0xFD9E1D7D, 0xDC64901D, 0x20AA99CA, 0xD3A49608, 0xC82F758B) =
     (0xC5FBAF5D, 0x8370B52E, 0xD2AA1365, 0x6F8D7EF5, 0x12104EE9)"
  by (simp add: init_def round_f_def round_k_def RotateLeft32_def)

lemma sha1_rounds_abc_30: "rounds 30
     [0x93AFB507, 0x5898E048, 0x8E9A9202, 0x600, 0xB131C0F0, 0x16263BC6, 0x4EBED41E, 0x626380A1,
     0x16263806, 0x18C0]
     (0xC5FBAF5D, 0x8370B52E, 0xD2AA1365, 0x6F8D7EF5, 0x12104EE9) =
     (0x32DE1CBA, 0x4C986405, 0xF718E5CF, 0x3D447F6, 0xF72EEC32)"
  by (simp add: init_def round_f_def round_k_def RotateLeft32_def)

lemma sha1_rounds_abc_40: "rounds 40
     [0xD2E138C4, 0xF00, 0x3AFB5079, 0x898E04E5, 0xE2BA3C2B, 0x60C0, 0x53A37CD, 0x74458547,
     0xDA9415ED, 0x26380A16]
     (0x32DE1CBA, 0x4C986405, 0xF718E5CF, 0x3D447F6, 0xF72EEC32) =
     (0x120731C5, 0xBAF39337, 0xAFAB40B2, 0x2806E11B, 0x8714787C)"
  by (simp add: init_def round_f_def round_k_def RotateLeft32_def)

lemma sha1_rounds_abc_50: "rounds 50
     [0x626383A1, 0x4EBF54DE, 0x3835B44B, 0xF600, 0x1E84C7A3, 0x98E04D98, 0x651D16A0, 0x62658CA1,
     0x458544D6, 0x44584CB7]
     (0x120731C5, 0xBAF39337, 0xAFAB40B2, 0x2806E11B, 0x8714787C) =
     (0x3F52DE5A, 0x9D785FD, 0x3498BFD4, 0xF211824F, 0xD79915AB)"
  by (simp add: init_def round_f_def round_k_def RotateLeft32_def)

lemma sha1_rounds_abc_60: "rounds 60
     [0x7BA06619, 0x6380AEA2, 0xAE55269, 0x627B49A1, 0x7CD45C9D, 0xF0000, 0xFB50753A, 0xEC6765E8,
     0xBA3C2BE2, 0x60C000]
     (0x3F52DE5A, 0x9D785FD, 0x3498BFD4, 0xF211824F, 0xD79915AB) =
     (0x3F2588C2, 0x497093C0, 0xDE37534A, 0x30F7CAD, 0x4405957E)"
  by (simp add: init_def round_f_def round_k_def RotateLeft32_def)

lemma sha1_rounds_abc_70: "rounds 70
     [0x3A37CD05, 0x458546F4, 0xB8599DD6, 0x380A1A26, 0x1E02203, 0xE7CC3456, 0xE6E60B69,
     0xF60A00, 0x5795EF4F, 0x822E0879]
     (0x3F2588C2, 0x497093C0, 0xDE37534A, 0x30F7CAD, 0x4405957E) =
     (0x42541B35, 0x5738D5E1, 0x21834873, 0x681E6DF6, 0xD8FDF6AD)"
  by (simp add: init_def round_f_def round_k_def RotateLeft32_def)

lemma sha1_rounds_abc: "rounds 0
     [0x61626380, 0x0, 0x0, 0x0, 0x0, 0x0, 0x0, 0x0, 0x0, 0x0, 0x0, 0x0, 0x0, 0x0, 0x0, 0x18,
     0xC2C4C700, 0x0, 0x30, 0x85898E01, 0x0, 0x60, 0xB131C03, 0x30, 0x85898EC1, 0x16263806, 0x0,
     0x180, 0x2C4C700C, 0xF0, 0x93AFB507, 0x5898E048, 0x8E9A9202, 0x600, 0xB131C0F0, 0x16263BC6,
     0x4EBED41E, 0x626380A1, 0x16263806, 0x18C0, 0xD2E138C4, 0xF00, 0x3AFB5079, 0x898E04E5,
     0xE2BA3C2B, 0x60C0, 0x53A37CD, 0x74458547, 0xDA9415ED, 0x26380A16, 0x626383A1, 0x4EBF54DE,
     0x3835B44B, 0xF600, 0x1E84C7A3, 0x98E04D98, 0x651D16A0, 0x62658CA1, 0x458544D6, 0x44584CB7,
     0x7BA06619, 0x6380AEA2, 0xAE55269, 0x627B49A1, 0x7CD45C9D, 0xF0000, 0xFB50753A, 0xEC6765E8,
     0xBA3C2BE2, 0x60C000, 0x3A37CD05, 0x458546F4, 0xB8599DD6, 0x380A1A26, 0x1E02203, 0xE7CC3456,
     0xE6E60B69, 0xF60A00, 0x5795EF4F, 0x822E0879]
     init =
     (0x42541B35, 0x5738D5E1, 0x21834873, 0x681E6DF6, 0xD8FDF6AD)"
  by (simp del: rounds.simps add: rounds_step10 sha1_rounds_abc_0 sha1_rounds_abc_10 sha1_rounds_abc_20 sha1_rounds_abc_30 sha1_rounds_abc_40 sha1_rounds_abc_50 sha1_rounds_abc_60 sha1_rounds_abc_70)

lemma sha1_block_abc: "block init
     [0x61, 0x62, 0x63, 0x80, 0x0, 0x0, 0x0, 0x0, 0x0, 0x0, 0x0, 0x0, 0x0, 0x0, 0x0, 0x0, 0x0,
     0x0, 0x0, 0x0, 0x0, 0x0, 0x0, 0x0, 0x0, 0x0, 0x0, 0x0, 0x0, 0x0, 0x0, 0x0, 0x0, 0x0, 0x0,
     0x0, 0x0, 0x0, 0x0, 0x0, 0x0, 0x0, 0x0, 0x0, 0x0, 0x0, 0x0, 0x0, 0x0, 0x0, 0x0, 0x0, 0x0,
     0x0, 0x0, 0x0, 0x0, 0x0, 0x0, 0x0, 0x0, 0x0, 0x0, 0x18] =
     (0xA9993E36, 0x4706816A, 0xBA3E2571, 0x7850C26C, 0x9CD0D89D)"
  unfolding block_def sha1_words_abc sha1_schedule_abc sha1_rounds_abc
  by (simp add: init_def)

lemma sha1_abc: "sha1 [0x61, 0x62, 0x63] =
     [0xA9, 0x99, 0x3E, 0x36, 0x47, 0x6, 0x81, 0x6A, 0xBA, 0x3E, 0x25, 0x71, 0x78, 0x50, 0xC2,
     0x6C, 0x9C, 0xD0, 0xD8, 0x9D]"
  unfolding sha1_def sha1_pad_abc
  by (simp add: blocks_single sha1_block_abc word_bytes_def)

lemma Hash_func_read:
  "Open os path = Inr f \<Longrightarrow> read_err f = None \<Longrightarrow>
   Hash_func os path = \<lparr>Path = path, Hash = sha1 (data f), Err = None\<rparr>"
  by (simp add: Hash_func_def io_Copy_def sha1_New_def sha1_Write_def sha1_Sum_def)

text \<open>
  C8. Hash of a file of length zero has the 20 bytes da39a3ee5e6b4b0d3255bfef95601890afd80709
  as its digest and no error, and Hash of a file that holds the three bytes of "abc" has
  a9993e364706816aba3e25717850c26c9cd0d89d.
\<close>

theorem Hash_func_test_vectors:
  "(Open os path = Inr \<lparr>data = [], read_err = None\<rparr> \<longrightarrow>
      Hash_func os path =
        \<lparr>Path = path,
         Hash = [0xDA, 0x39, 0xA3, 0xEE, 0x5E, 0x6B, 0x4B, 0x0D, 0x32, 0x55,
                 0xBF, 0xEF, 0x95, 0x60, 0x18, 0x90, 0xAF, 0xD8, 0x07, 0x09],
         Err = None\<rparr>) \<and>
   (Open os path = Inr \<lparr>data = [0x61, 0x62, 0x63], read_err = None\<rparr> \<longrightarrow>
      Hash_func os path =
        \<lparr>Path = path,
         Hash = [0xA9, 0x99, 0x3E, 0x36, 0x47, 0x06, 0x81, 0x6A, 0xBA, 0x3E,
                 0x25, 0x71, 0x78, 0x50, 0xC2, 0x6C, 0x9C, 0xD0, 0xD8, 0x9D],
         Err = None\<rparr>)"
  using sha1_empty sha1_abc by (simp add: Hash_func_read del: append.simps)

theorem Hash_func_test_vectors_witness:
  "Open scenario ''root/a'' = Inr \<lparr>data = [], read_err = None\<rparr> \<and>
   Hash_func scenario ''root/a'' =
     \<lparr>Path = ''root/a'',
      Hash = [0xDA, 0x39, 0xA3, 0xEE, 0x5E, 0x6B, 0x4B, 0x0D, 0x32, 0x55,
              0xBF, 0xEF, 0x95, 0x60, 0x18, 0x90, 0xAF, 0xD8, 0x07, 0x09],
      Err = None\<rparr> \<and>
   Open scenario ''root/b'' = Inr \<lparr>data = [0x61, 0x62, 0x63], read_err = None\<rparr> \<and>
   Hash_func scenario ''root/b'' =
     \<lparr>Path = ''root/b'',
      Hash = [0xA9, 0x99, 0x3E, 0x36, 0x47, 0x06, 0x81, 0x6A, 0xBA, 0x3E,
              0x25, 0x71, 0x78, 0x50, 0xC2, 0x6C, 0x9C, 0xD0, 0xD8, 0x9D],
      Err = None\<rparr>"
proof -
  have a: "Open scenario ''root/a'' = Inr \<lparr>data = [], read_err = None\<rparr>"
    by (simp add: scenario_def)
  have b: "Open scenario ''root/b'' = Inr \<lparr>data = [0x61, 0x62, 0x63], read_err = None\<rparr>"
    by (simp add: scenario_def)
  show ?thesis
    using Hash_func_test_vectors [of scenario "''root/a''"]
      Hash_func_test_vectors [of scenario "''root/b''"] a b
    by (simp del: append.simps)
qed

section \<open>Properties of Hash and HashAll\<close>

lemma map_of_store: "map_of (store p h m) = (map_of m)(p \<mapsto> h)"
  by (induction m) auto

lemma keys_store: "keys (store p h m) = insert p (keys m)"
proof (induction m)
  case Nil
  show ?case by (simp add: keys_def)
next
  case (Cons x m)
  obtain k v where x: "x = (k, v)" by (cases x)
  have "fst ` set (store p h m) = insert p (fst ` set m)"
    using Cons by (simp add: keys_def)
  then show ?case
    using x by (cases "k = p") (simp_all add: keys_def insert_commute)
qed

lemma FileSet_ok_store: "FileSet_ok m \<Longrightarrow> FileSet_ok (store p h m)"
proof (induction m)
  case Nil
  show ?case by (simp add: FileSet_ok_def)
next
  case (Cons x m)
  obtain k v where x: "x = (k, v)" by (cases x)
  have "fst ` set (store p h m) = insert p (fst ` set m)"
    using keys_store [of p h m] by (simp add: keys_def)
  then show ?case
    using Cons x by (auto simp: FileSet_ok_def)
qed

lemma map_of_HashAll_stores:
  "map_of (HashAll_stores os ps m) k =
     (if k \<in> set ps then Some (Some (Hash_func os k)) else map_of m k)"
  by (induction ps arbitrary: m) (auto simp: map_of_store)

lemma keys_HashAll_stores: "keys (HashAll_stores os ps m) = keys m \<union> set ps"
  by (induction ps arbitrary: m) (auto simp: keys_store)

lemma FileSet_ok_HashAll_stores: "FileSet_ok m \<Longrightarrow> FileSet_ok (HashAll_stores os ps m)"
  by (induction ps arbitrary: m) (auto simp: FileSet_ok_store)

lemma Path_Hash_func: "Path (Hash_func os p) = p"
  by (simp add: Hash_func_def split: sum.splits prod.splits option.splits)

lemma list_all_store: "list_all P m \<Longrightarrow> P (p, h) \<Longrightarrow> list_all P (store p h m)"
  by (induction m) auto

lemma snapshot_wf_store: "snapshot_wf m \<Longrightarrow> Path f = p \<Longrightarrow> snapshot_wf (store p (Some f) m)"
  by (simp add: snapshot_wf_def FileSet_ok_store list_all_store)

lemma snapshot_wf_HashAll_stores: "snapshot_wf m \<Longrightarrow> snapshot_wf (HashAll_stores os ps m)"
  by (induction ps arbitrary: m) (simp_all add: snapshot_wf_store Path_Hash_func)

text \<open>
  Every map that HashAll returns is a snapshot in the sense of \<open>snapshot_wf\<close>, whatever the
  order of the stores is.
\<close>

lemma HashAll_snapshot_wf:
  "HashAll os sched stdout = Inr (results, out) \<Longrightarrow> snapshot_wf results"
proof -
  assume "HashAll os sched stdout = Inr (results, out)"
  then have "results =
      HashAll_stores os (sched (map fst (filter regular_file (visited os)))) []"
    by (simp add: HashAll_def Files_eq)
  moreover have "snapshot_wf []"
    by (simp add: snapshot_wf_def FileSet_ok_def)
  ultimately show ?thesis
    by (simp add: snapshot_wf_HashAll_stores)
qed

lemma sched_ok_set: "sched_ok sched \<Longrightarrow> set (sched paths) = set paths"
  by (auto simp: sched_ok_def dest: mset_eq_setD)

lemma sched_ok_rev: "sched_ok rev"
  by (simp add: sched_ok_def)

lemma Hash_func_unreadable:
  "unreadable os path err \<Longrightarrow> Hash_func os path = \<lparr>Path = path, Hash = [], Err = Some err\<rparr>"
  by (auto simp: unreadable_def Hash_func_def io_Copy_def split: sum.splits)

lemma unreadable_scenario: "unreadable scenario ''root/c'' (Error ''permission denied'')"
  by (simp add: unreadable_def scenario_def)

lemma Files_scenario:
  "Files scenario [] =
     Inr ([''root/a'', ''root/b'', ''root/c'', ''root/sub/d''], [unable_to_access ''root/locked''])"
  by (simp add: Files_eq visited_scenario ModeType_def ModeDir_def ModeSymlink_def ModeDevice_def
      ModeNamedPipe_def ModeSocket_def ModeCharDevice_def ModeIrregular_def)

text \<open>
  C6. If the file at a path cannot be opened or cannot be read to its end, Hash returns a
  fingerprint with that path, the error and no digest. HashAll returns all the same, with a
  map that has a fingerprint for every path of Files, the one of Hash; for the path that
  fails it is the failed fingerprint.
\<close>

theorem Hash_failure_recorded:
  assumes "unreadable os path err" and "sched_ok sched"
  shows "Hash_func os path = \<lparr>Path = path, Hash = [], Err = Some err\<rparr> \<and>
    (\<exists>files results out.
       Files os stdout = Inr (files, out) \<and>
       HashAll os sched stdout = Inr (results, out) \<and>
       FileSet_ok results \<and> keys results = set files \<and>
       (\<forall>p \<in> set files. map_of results p = Some (Some (Hash_func os p))) \<and>
       (path \<in> set files \<longrightarrow>
          map_of results path = Some (Some \<lparr>Path = path, Hash = [], Err = Some err\<rparr>)))"
proof -
  let ?files = "map fst (filter regular_file (visited os))"
  let ?out = "stdout @ map (\<lambda>v. unable_to_access (fst v)) (filter inaccessible (visited os))"
  let ?results = "HashAll_stores os (sched ?files) []"
  have h: "Hash_func os path = \<lparr>Path = path, Hash = [], Err = Some err\<rparr>"
    using assms(1) by (rule Hash_func_unreadable)
  have s: "set (sched ?files) = set ?files"
    using assms(2) by (rule sched_ok_set)
  have f: "Files os stdout = Inr (?files, ?out)"
    by (rule Files_eq)
  have a: "HashAll os sched stdout = Inr (?results, ?out)"
    by (simp add: HashAll_def f)
  have ok: "FileSet_ok ?results"
    by (rule FileSet_ok_HashAll_stores) (simp add: FileSet_ok_def)
  have k: "keys ?results = set ?files"
    unfolding keys_HashAll_stores s by (simp add: keys_def)
  have m: "\<forall>p \<in> set ?files. map_of ?results p = Some (Some (Hash_func os p))"
    unfolding map_of_HashAll_stores s by simp
  have p: "path \<in> set ?files \<longrightarrow>
      map_of ?results path = Some (Some \<lparr>Path = path, Hash = [], Err = Some err\<rparr>)"
    using m h by auto
  show ?thesis
    using h f a ok k m p by blast
qed

theorem Hash_failure_recorded_witness:
  "unreadable scenario ''root/c'' (Error ''permission denied'') \<and> sched_ok rev \<and>
   Hash_func scenario ''root/c'' =
     \<lparr>Path = ''root/c'', Hash = [], Err = Some (Error ''permission denied'')\<rparr> \<and>
   (\<exists>results.
      HashAll scenario rev [] = Inr (results, [unable_to_access ''root/locked'']) \<and>
      keys results = {''root/a'', ''root/b'', ''root/c'', ''root/sub/d''} \<and>
      map_of results ''root/c'' =
        Some (Some \<lparr>Path = ''root/c'', Hash = [], Err = Some (Error ''permission denied'')\<rparr>))"
  using Hash_failure_recorded [OF unreadable_scenario sched_ok_rev, of "[]"]
    unreadable_scenario sched_ok_rev
  by (auto simp: Files_scenario)

end
